theory Spec2Isabelle
  imports Main "HOL-Library.Sublist"
begin

section \<open>Strings of the converter\<close>

text \<open>
  A Python \<^verbatim>\<open>str\<close> is a sequence of Unicode code points; it is modelled as a list of
  natural numbers. \<open>ustr\<close> turns an ASCII literal of the source into such a list and
  \<open>uc\<close> does the same for one character.
\<close>

type_synonym ustring = "nat list"

definition ustr :: "string \<Rightarrow> ustring" where
  "ustr s = map of_char s"

abbreviation (input) uc :: "char \<Rightarrow> nat" where
  "uc c \<equiv> of_char c"

text \<open>
  The character tables of the Python runtime are not part of the repository; they are a
  parameter of the model. \<open>isspace\<close> is the class behind \<^verbatim>\<open>str.strip()\<close> and the
  regular expression \<^verbatim>\<open>\s\<close>, \<open>isword\<close> is \<^verbatim>\<open>\w\<close>, \<open>isdigit\<close> is \<^verbatim>\<open>\d\<close>, and
  \<open>lower\<close> is \<^verbatim>\<open>str.lower()\<close>.
\<close>

record unicode =
  isspace :: "nat \<Rightarrow> bool"
  isword :: "nat \<Rightarrow> bool"
  isdigit :: "nat \<Rightarrow> bool"
  lower :: "ustring \<Rightarrow> ustring"

text \<open>The tables restricted to ASCII, for evaluating the model on ASCII inputs.\<close>

definition ascii :: unicode where
  "ascii = \<lparr>
     isspace = (\<lambda>c. (9 \<le> c \<and> c \<le> 13) \<or> (28 \<le> c \<and> c \<le> 32)),
     isword = (\<lambda>c. (48 \<le> c \<and> c \<le> 57) \<or> (65 \<le> c \<and> c \<le> 90) \<or> c = 95 \<or> (97 \<le> c \<and> c \<le> 122)),
     isdigit = (\<lambda>c. 48 \<le> c \<and> c \<le> 57),
     lower = map (\<lambda>c. if 65 \<le> c \<and> c \<le> 90 then c + 32 else c) \<rparr>"

text \<open>\<^verbatim>\<open>s.strip()\<close>: whitespace removed at both ends.\<close>

definition strip :: "unicode \<Rightarrow> ustring \<Rightarrow> ustring" where
  "strip U s = rev (dropWhile (isspace U) (rev (dropWhile (isspace U) s)))"

text \<open>
  \<^verbatim>\<open>re.sub(r"C+", r, s)\<close> for a character class \<open>C\<close>: every maximal run of characters
  of the class is replaced by \<open>r\<close>.
\<close>

function re_sub_runs :: "(nat \<Rightarrow> bool) \<Rightarrow> ustring \<Rightarrow> ustring \<Rightarrow> ustring" where
  "re_sub_runs C r [] = []"
| "re_sub_runs C r (c # cs) =
     (if C c then r @ re_sub_runs C r (dropWhile C cs) else c # re_sub_runs C r cs)"
  by pat_completeness auto
termination
  by (relation "measure (\<lambda>(C, r, s). length s)")
     (auto simp: le_imp_less_Suc length_dropWhile_le)

text \<open>\<^verbatim>\<open>sub in s\<close> on strings: \<open>sub\<close> occurs in \<open>s\<close> as a contiguous piece.\<close>

fun contains :: "'a list \<Rightarrow> 'a list \<Rightarrow> bool" where
  "contains sub [] = (sub = [])"
| "contains sub (c # cs) = (prefix sub (c # cs) \<or> contains sub cs)"

text \<open>
  \<^verbatim>\<open>s.replace(old, new)\<close>: the occurrences of \<open>old\<close> are replaced from left to right
  without overlap; an empty \<open>old\<close> matches before every character and at the end.
\<close>

function str_replace :: "'a list \<Rightarrow> 'a list \<Rightarrow> 'a list \<Rightarrow> 'a list" where
  "str_replace [] old new = (if old = [] then new else [])"
| "str_replace (c # cs) old new =
     (if old = [] then new @ c # str_replace cs old new
      else if prefix old (c # cs) then new @ str_replace (drop (length old) (c # cs)) old new
      else c # str_replace cs old new)"
  by pat_completeness auto
termination
  by (relation "measure (\<lambda>(s, old, new). length s)") auto



section \<open>The converter and its headings\<close>

text \<open>
  The fields that \<^verbatim>\<open>TwoPassConverter.__init__\<close> sets. A heading is recorded as
  \<open>(level, anchor, text)\<close>.
\<close>

record converter =
  headings :: "(int \<times> ustring \<times> ustring) list"
  toc_placeholders :: "ustring list"
  last_heading_level :: int

definition new_converter :: converter where
  "new_converter = \<lparr>headings = [], toc_placeholders = [], last_heading_level = 0\<rparr>"

text \<open>
  \<^verbatim>\<open>slugify\<close>: strip and lower the text, remove what is not a word character,
  whitespace or a hyphen, turn whitespace runs into one hyphen, collapse hyphen runs.
\<close>

definition slugify :: "unicode \<Rightarrow> ustring \<Rightarrow> ustring" where
  "slugify U text =
     (let slug = lower U (strip U text);
          slug = filter (\<lambda>c. isword U c \<or> isspace U c \<or> c = uc CHR ''-'') slug;
          slug = re_sub_runs (isspace U) (ustr ''-'') slug;
          slug = re_sub_runs (\<lambda>c. c = uc CHR ''-'') (ustr ''-'') slug
      in slug)"

text \<open>
  What \<^verbatim>\<open>_convert_heading\<close> reads from the element: the attribute
  \<^verbatim>\<open>data-nh-numbering\<close> (if present) and the text nodes of the first
  \<^verbatim>\<open><span class="nh-number">\<close> below it (if there is one).
\<close>

record heading_el =
  data_nh_numbering :: "ustring option"
  nh_span :: "ustring list option"

text \<open>\<^verbatim>\<open>get_text(strip=True)\<close>: the stripped text nodes that are not empty, joined.\<close>

definition get_text_strip :: "unicode \<Rightarrow> ustring list \<Rightarrow> ustring" where
  "get_text_strip U strs = concat (filter (\<lambda>s. s \<noteq> []) (map (strip U) strs))"

text \<open>The variable \<^verbatim>\<open>prefix\<close> after lines 153 to 167.\<close>

definition heading_prefix :: "unicode \<Rightarrow> heading_el \<Rightarrow> ustring" where
  "heading_prefix U el =
     (let prefix0 = (case data_nh_numbering el of
                       None \<Rightarrow> []
                     | Some attr_prefix \<Rightarrow> if attr_prefix \<noteq> [] then [] @ attr_prefix else [])
      in case nh_span el of
           None \<Rightarrow> prefix0
         | Some strs \<Rightarrow>
             (let span_txt = get_text_strip U strs
              in if span_txt \<noteq> [] \<and> \<not> contains span_txt prefix0
                 then prefix0 @ span_txt else prefix0))"

text \<open>The variable \<^verbatim>\<open>heading_text_stripped\<close> after lines 170 and 171.\<close>

definition heading_text_stripped :: "unicode \<Rightarrow> ustring \<Rightarrow> ustring" where
  "heading_text_stripped U heading_text =
     strip U (re_sub_runs (isspace U) (ustr '' '')
       (map (\<lambda>c. if c = 160 then uc CHR '' '' else c) heading_text))"

text \<open>
  \<^verbatim>\<open>re.match(r"^\d+(\.\d+)*", s)\<close>: the text matched, or \<open>None\<close>. The digits are
  taken greedily, then every following group of a dot and at least one digit.
\<close>

function dotted_groups :: "unicode \<Rightarrow> ustring \<Rightarrow> ustring" where
  "dotted_groups U [] = []"
| "dotted_groups U [c] = []"
| "dotted_groups U (c # d # cs) =
     (if c = uc CHR ''.'' \<and> isdigit U d
      then c # takeWhile (isdigit U) (d # cs) @ dotted_groups U (dropWhile (isdigit U) (d # cs))
      else [])"
  by pat_completeness auto
termination
  by (relation "measure (\<lambda>(U, s). length s)")
     (auto simp: le_imp_less_Suc length_dropWhile_le less_Suc_eq_le le_SucI)

definition re_match_numbering :: "unicode \<Rightarrow> ustring \<Rightarrow> ustring option" where
  "re_match_numbering U s =
     (case s of
        [] \<Rightarrow> None
      | c # cs \<Rightarrow>
          if isdigit U c
          then Some (takeWhile (isdigit U) s @ dotted_groups U (dropWhile (isdigit U) s))
          else None)"

text \<open>The variable \<^verbatim>\<open>final_text\<close> after lines 175 to 180.\<close>

definition final_text :: "unicode \<Rightarrow> heading_el \<Rightarrow> ustring \<Rightarrow> ustring" where
  "final_text U el heading_text =
     (let stripped = heading_text_stripped U heading_text
      in if re_match_numbering U stripped \<noteq> None then stripped
         else strip U (heading_prefix U el @ stripped))"

text \<open>The variable \<^verbatim>\<open>final_level\<close> after lines 183 to 189.\<close>

definition final_level :: "converter \<Rightarrow> int \<Rightarrow> int" where
  "final_level st level_from_tag =
     (if last_heading_level st = 0 then level_from_tag
      else if level_from_tag > last_heading_level st + 1 then last_heading_level st + 1
      else level_from_tag)"

text \<open>The heading line that is returned: \<^verbatim>\<open>f"\n\n{hashes} {final_text}\n\n"\<close>.\<close>

definition heading_markdown :: "int \<Rightarrow> ustring \<Rightarrow> ustring" where
  "heading_markdown level text =
     ustr ''\<newline>\<newline>'' @ replicate (nat level) (uc CHR ''#'') @ ustr '' '' @ text
       @ ustr ''\<newline>\<newline>''"

text \<open>\<^verbatim>\<open>_convert_heading\<close>: the new state of the converter and the returned Markdown.\<close>

definition convert_heading ::
  "unicode \<Rightarrow> converter \<Rightarrow> heading_el \<Rightarrow> ustring \<Rightarrow> int \<Rightarrow> converter \<times> ustring" where
  "convert_heading U st el heading_text level_from_tag =
     (let text = final_text U el heading_text;
          level = final_level st level_from_tag;
          anchor = slugify U text
      in (st\<lparr>last_heading_level := level, headings := headings st @ [(level, anchor, text)]\<rparr>,
          heading_markdown level text))"

text \<open>
  \<^verbatim>\<open>convert_h1\<close> to \<^verbatim>\<open>convert_h6\<close> are the only callers; each passes the level of its
  tag.
\<close>

datatype htag = H1 | H2 | H3 | H4 | H5 | H6

fun level_of :: "htag \<Rightarrow> int" where
  "level_of H1 = 1"
| "level_of H2 = 2"
| "level_of H3 = 3"
| "level_of H4 = 4"
| "level_of H5 = 5"
| "level_of H6 = 6"

definition convert_h ::
  "unicode \<Rightarrow> converter \<Rightarrow> htag \<times> heading_el \<times> ustring \<Rightarrow> converter \<times> ustring" where
  "convert_h U st call =
     (case call of (tag, el, text) \<Rightarrow> convert_heading U st el text (level_of tag))"

text \<open>The headings of a document, converted one after the other by one converter.\<close>

fun convert_hs ::
  "unicode \<Rightarrow> converter \<Rightarrow> (htag \<times> heading_el \<times> ustring) list \<Rightarrow> converter \<times> ustring list"
  where
  "convert_hs U st [] = (st, [])"
| "convert_hs U st (call # calls) =
     (case convert_h U st call of
        (st1, out) \<Rightarrow> (case convert_hs U st1 calls of (st2, outs) \<Rightarrow> (st2, out # outs)))"


section \<open>The table of contents\<close>



text \<open>\<^verbatim>\<open>sep.join(lines)\<close>.\<close>

fun str_join :: "'a list \<Rightarrow> 'a list list \<Rightarrow> 'a list" where
  "str_join sep [] = []"
| "str_join sep [x] = x"
| "str_join sep (x # y # ys) = x @ sep @ str_join sep (y # ys)"

text \<open>One line of the list, lines 348 to 352.\<close>

definition toc_line :: "int \<times> ustring \<times> ustring \<Rightarrow> ustring" where
  "toc_line h =
     (case h of (level, anchor, heading_text) \<Rightarrow>
        (let indent = (if level = 1 then [] else concat (replicate (nat (level - 1)) (ustr ''  '')))
         in indent @ ustr ''- ['' @ heading_text @ ustr ''](#'' @ anchor @ ustr '')''))"

text \<open>The variable \<^verbatim>\<open>toc_markdown\<close> after lines 339 to 354.\<close>

definition toc_markdown :: "(int \<times> ustring \<times> ustring) list \<Rightarrow> ustring" where
  "toc_markdown all_headings =
     (if all_headings = [] then ustr ''\<newline>\<newline>(No headings found for TOC)\<newline>\<newline>''
      else str_join (ustr ''\<newline>'') (map toc_line all_headings) @ ustr ''\<newline>\<newline>'')"

text \<open>\<^verbatim>\<open>finalize_toc\<close>: one \<^verbatim>\<open>replace\<close> for each placeholder, in the order of the list.\<close>

definition finalize_toc :: "converter \<Rightarrow> ustring \<Rightarrow> ustring" where
  "finalize_toc st text =
     (if toc_placeholders st = [] then text
      else foldl (\<lambda>text placeholder. str_replace text placeholder (toc_markdown (headings st)))
             text (toc_placeholders st))"


text \<open>
  The calls of one document that read or write the fields of the converter: the
  headings and the \<^verbatim>\<open>div\<close> elements (with the attribute \<^verbatim>\<open>data-macro-name\<close>, the text of
  the element and the Markdown of its diagram, if it is one). \<open>walk\<close> is the converter
  after these calls.
\<close>

datatype call =
  Heading htag heading_el ustring
| Div "ustring option" ustring ustring




section \<open>Links and images\<close>

text \<open>
  An exception of Python with its message. Every one of them is an \<^verbatim>\<open>Exception\<close>, so
  \<^verbatim>\<open>except Exception\<close> catches each.
\<close>

datatype error =
  ValueError ustring
| TypeError ustring
| IndexError ustring
| RequestError ustring
| OSError ustring

fun str_of_error :: "error \<Rightarrow> ustring" where
  "str_of_error (ValueError m) = m"
| "str_of_error (TypeError m) = m"
| "str_of_error (IndexError m) = m"
| "str_of_error (RequestError m) = m"
| "str_of_error (OSError m) = m"

text \<open>\<^verbatim>\<open>el.attrs\<close>, a dictionary from attribute names to values.\<close>

type_synonym attrs = "ustring \<rightharpoonup> ustring"

text \<open>The fields of \<^verbatim>\<open>urlparse(url)\<close> that the program reads.\<close>

record url =
  scheme :: ustring
  netloc :: ustring
  path :: ustring
  query :: ustring

text \<open>The global \<^verbatim>\<open>BASE_URL\<close>, line 393: \<^verbatim>\<open>f"{parsed_url.scheme}://{parsed_url.netloc}"\<close>.\<close>

definition base_url_of :: "url \<Rightarrow> ustring" where
  "base_url_of parsed_url = scheme parsed_url @ ustr ''://'' @ netloc parsed_url"

text \<open>
  The functions of the standard library and of \<^verbatim>\<open>markdownify\<close> that the program calls.
  They are not part of the repository and are a parameter of the model: \<^verbatim>\<open>urlparse\<close>
  (which may raise), \<^verbatim>\<open>parse_qs\<close> (a dictionary from names to lists of values),
  \<^verbatim>\<open>unquote\<close>, \<^verbatim>\<open>unquote_plus\<close>, and the methods \<^verbatim>\<open>convert_img\<close> and \<^verbatim>\<open>convert_a\<close> of
  \<^verbatim>\<open>MarkdownConverter\<close>, which render an element from its attributes and its text.
\<close>

record library =
  urlparse :: "ustring \<Rightarrow> error + url"
  parse_qs :: "ustring \<Rightarrow> (ustring \<rightharpoonup> ustring list)"
  unquote :: "ustring \<Rightarrow> ustring"
  unquote_plus :: "ustring \<Rightarrow> ustring"
  super_convert_img :: "attrs \<Rightarrow> ustring \<Rightarrow> ustring"
  super_convert_a :: "attrs \<Rightarrow> ustring \<Rightarrow> ustring"

text \<open>
  The outside world of one run: what \<^verbatim>\<open>requests.get\<close> with \<^verbatim>\<open>raise_for_status\<close> gives
  for a URL (the content, or the exception raised), and whether writing a file fails.
\<close>

record world =
  http_get :: "ustring \<Rightarrow> error + ustring"
  write_file :: "ustring \<Rightarrow> ustring \<Rightarrow> error option"

text \<open>\<^verbatim>\<open>s.rstrip("/")\<close>.\<close>

definition rstrip_slash :: "ustring \<Rightarrow> ustring" where
  "rstrip_slash s = rev (dropWhile (\<lambda>c. c = uc CHR ''/'') (rev s))"

text \<open>\<^verbatim>\<open>re.match(r'^(https?://|mailto:)', href)\<close> succeeds.\<close>

definition re_match_scheme :: "ustring \<Rightarrow> bool" where
  "re_match_scheme href \<longleftrightarrow>
     prefix (ustr ''http://'') href \<or> prefix (ustr ''https://'') href
     \<or> prefix (ustr ''mailto:'') href"

text \<open>
  \<^verbatim>\<open>convert_a\<close>: the attributes of the element after the call and the Markdown returned.
  \<open>base_url\<close> is the global \<^verbatim>\<open>BASE_URL\<close>.
\<close>

definition convert_a :: "library \<Rightarrow> ustring \<Rightarrow> attrs \<Rightarrow> ustring \<Rightarrow> attrs \<times> ustring" where
  "convert_a L base_url el text =
     (let href = (case el (ustr ''href'') of None \<Rightarrow> [] | Some h \<Rightarrow> h)
      in if href = [] then (el, super_convert_a L el text)
         else if re_match_scheme href then (el, super_convert_a L el text)
         else (let href = rstrip_slash base_url @ href;
                   el = el(ustr ''href'' \<mapsto> href)
               in (el, super_convert_a L el text)))"

text \<open>
  \<^verbatim>\<open>download_image\<close>: the lines printed when it returns, or the exception that leaves it.
\<close>

definition download_image :: "world \<Rightarrow> ustring \<Rightarrow> ustring \<Rightarrow> error + ustring list" where
  "download_image W image_url local_path =
     (case http_get W image_url of
        Inl e \<Rightarrow> Inl e
      | Inr content \<Rightarrow>
          (case write_file W local_path content of
             Some e \<Rightarrow> Inl e
           | None \<Rightarrow> Inr [ustr ''Image downloaded: '' @ local_path]))"

text \<open>\<^verbatim>\<open>s.split(sep)\<close> for a separator of one character.\<close>

fun str_split :: "nat \<Rightarrow> ustring \<Rightarrow> ustring list" where
  "str_split sep [] = [[]]"
| "str_split sep (c # cs) =
     (if c = sep then [] # str_split sep cs
      else (case str_split sep cs of [] \<Rightarrow> [[c]] | p # ps \<Rightarrow> (c # p) # ps))"

text \<open>\<^verbatim>\<open>os.path.basename(p)\<close>: what follows the last slash.\<close>

definition basename :: "ustring \<Rightarrow> ustring" where
  "basename p = last (str_split (uc CHR ''/'') p)"

text \<open>\<^verbatim>\<open>os.path.join("images", name)\<close>: a name that starts with a slash replaces the folder.\<close>

definition images_join :: "ustring \<Rightarrow> ustring" where
  "images_join name = (if prefix (ustr ''/'') name then name else ustr ''images/'' @ name)"

text \<open>The variable \<^verbatim>\<open>src\<close> after lines 204 to 206; \<open>None\<close> is Python's \<^verbatim>\<open>None\<close>.\<close>

definition image_src :: "ustring \<Rightarrow> attrs \<Rightarrow> ustring option" where
  "image_src base_url el =
     (let src = (case el (ustr ''data-image-src'') of Some s \<Rightarrow> Some s | None \<Rightarrow> el (ustr ''src''))
      in case src of
           None \<Rightarrow> None
         | Some s \<Rightarrow>
             if s \<noteq> [] \<and> \<not> prefix (ustr ''http'') s
             then Some (rstrip_slash base_url @ str_replace s (ustr ''//'') [])
             else Some s)"

text \<open>
  \<^verbatim>\<open>convert_img\<close>: the attributes after the call, the Markdown returned and the lines
  printed, or the exception that leaves the method. The converter \<open>self\<close> is passed
  through as it is: the method writes none of its fields.
\<close>

definition convert_img ::
  "library \<Rightarrow> world \<Rightarrow> ustring \<Rightarrow> converter \<Rightarrow> attrs \<Rightarrow> ustring
     \<Rightarrow> error + (converter \<times> attrs \<times> ustring \<times> ustring list)" where
  "convert_img L W base_url self el text =
     (case image_src base_url el of
        None \<Rightarrow> Inl (TypeError (ustr ''argument of type 'NoneType' is not iterable''))
      | Some src \<Rightarrow>
          (let log = [ustr ''Detected normal image: '' @ src]
           in if contains (ustr ''status-macro/placeholder'') src
              then Inr (self, el, super_convert_img L el text @ ustr ''\<newline>\<newline>'', log)
              else
                (case urlparse L src of
                   Inl e \<Rightarrow> Inl e
                 | Inr parsed_src \<Rightarrow>
                     (let local_filename = unquote L (basename (path parsed_src));
                          local_path = images_join local_filename
                      in case download_image W src local_path of
                           Inr printed \<Rightarrow>
                             (let el = el(ustr ''src'' \<mapsto> ustr ''./images/'' @ local_filename)
                              in Inr (self, el, super_convert_img L el text @ ustr ''\<newline>\<newline>'',
                                      log @ printed))
                         | Inl e \<Rightarrow>
                             (let el = el(ustr ''src'' \<mapsto> src)
                              in Inr (self, el, super_convert_img L el text @ ustr ''\<newline>\<newline>'',
                                      log @ [ustr ''Error downloading image '' @ src @ ustr '': ''
                                               @ str_of_error e]))))))"

section \<open>The address of the page\<close>

text \<open>\<^verbatim>\<open>qs.get(key, [None])[0]\<close>.\<close>

definition qs_first :: "(ustring \<rightharpoonup> ustring list) \<Rightarrow> ustring \<Rightarrow> error + ustring option" where
  "qs_first qs key =
     (case qs key of
        None \<Rightarrow> Inr None
      | Some [] \<Rightarrow> Inl (IndexError (ustr ''list index out of range''))
      | Some (v # vs) \<Rightarrow> Inr (Some v))"

text \<open>Truth of an optional string: it is there and it is not empty.\<close>

definition truthy :: "ustring option \<Rightarrow> bool" where
  "truthy v \<longleftrightarrow> (case v of None \<Rightarrow> False | Some s \<Rightarrow> s \<noteq> [])"

text \<open>
  \<^verbatim>\<open>extract_page_info\<close>: the triple \<open>(space_key, page_title, page_id)\<close> or the exception
  raised.
\<close>

definition extract_page_info ::
  "library \<Rightarrow> ustring \<Rightarrow> error + (ustring option \<times> ustring option \<times> ustring option)" where
  "extract_page_info L page_url =
     (case urlparse L page_url of
        Inl e \<Rightarrow> Inl e
      | Inr parsed \<Rightarrow>
          if contains (ustr ''viewpage.action'') (path parsed) then
            (let qs = parse_qs L (query parsed)
             in case qs_first qs (ustr ''pageId'') of
                  Inl e \<Rightarrow> Inl e
                | Inr page_id \<Rightarrow>
                    if truthy page_id then Inr (None, None, page_id)
                    else
                      (case qs_first qs (ustr ''spaceKey'') of
                         Inl e \<Rightarrow> Inl e
                       | Inr space_key \<Rightarrow>
                           (case qs_first qs (ustr ''title'') of
                              Inl e \<Rightarrow> Inl e
                            | Inr raw_title \<Rightarrow>
                                if truthy space_key \<and> truthy raw_title
                                then Inr (space_key, Some (unquote_plus L (the raw_title)), None)
                                else Inl (ValueError (ustr
                                  ''Neither pageId nor (spaceKey + title) found in the URL query.'')))))
          else if contains (ustr ''display'') (path parsed) then
            (let parts = str_split (uc CHR ''/'') (path parsed)
             in if length parts \<ge> 3
                then Inr (Some (parts ! 2),
                          Some (if length parts \<ge> 4 then unquote_plus L (parts ! 3) else []),
                          None)
                else Inl (ValueError (ustr
                  ''PAGE_URL in /display/ format does not have enough parts.'')))
          else if contains (ustr ''wiki'') (path parsed) \<and> contains (ustr ''spaces'') (path parsed) then
            (let parts = str_split (uc CHR ''/'') (path parsed)
             in if length parts \<ge> 7
                then Inr (Some (parts ! 3), Some (unquote_plus L (parts ! 6)), None)
                else Inl (ValueError (ustr
                  ''PAGE_URL in /wiki/spaces/ format does not have enough parts.'')))
          else Inl (ValueError (ustr
            ''PAGE_URL does not follow a recognized Confluence URL format.'')))"

section \<open>A stand-in for the library and the network\<close>

text \<open>
  To run the model on examples the parameters need values. \<open>plain_library\<close> behaves as
  the library does on addresses of the plain form \<^verbatim>\<open>scheme://host/path?query\<close> without
  percent escapes: \<open>plain_urlparse\<close> cuts the address at \<^verbatim>\<open>://\<close>, at the end of the host,
  at \<^verbatim>\<open>#\<close> and at \<^verbatim>\<open>?\<close>; \<open>plain_parse_qs\<close> cuts the query at \<^verbatim>\<open>&\<close> and at the
  first \<^verbatim>\<open>=\<close> of each field and drops fields without a value; \<open>plain_unquote_plus\<close> turns
  \<^verbatim>\<open>+\<close> into a space. The two renderers give \<^verbatim>\<open>[text](href)\<close> and \<^verbatim>\<open>![alt](src)\<close>.
  \<open>offline\<close> is a network on which every request fails.
\<close>

fun split_at :: "ustring \<Rightarrow> ustring \<Rightarrow> (ustring \<times> ustring) option" where
  "split_at sep [] = None"
| "split_at sep (c # cs) =
     (if prefix sep (c # cs) then Some ([], drop (length sep) (c # cs))
      else (case split_at sep cs of None \<Rightarrow> None | Some (a, b) \<Rightarrow> Some (c # a, b)))"

definition plain_urlparse :: "ustring \<Rightarrow> error + url" where
  "plain_urlparse u =
     (let (sch, rest) = (case split_at (ustr ''://'') u of None \<Rightarrow> ([], u) | Some (a, b) \<Rightarrow> (a, b));
          host = (if sch = [] then []
                  else takeWhile (\<lambda>c. c \<noteq> uc CHR ''/'' \<and> c \<noteq> uc CHR ''?'' \<and> c \<noteq> uc CHR ''#'') rest);
          rest = drop (length host) rest;
          rest = takeWhile (\<lambda>c. c \<noteq> uc CHR ''#'') rest
      in Inr \<lparr>scheme = sch, netloc = host,
               path = takeWhile (\<lambda>c. c \<noteq> uc CHR ''?'') rest,
               query = drop 1 (dropWhile (\<lambda>c. c \<noteq> uc CHR ''?'') rest)\<rparr>)"

definition plain_unquote_plus :: "ustring \<Rightarrow> ustring" where
  "plain_unquote_plus s = map (\<lambda>c. if c = uc CHR ''+'' then uc CHR '' '' else c) s"

definition plain_parse_qs :: "ustring \<Rightarrow> (ustring \<rightharpoonup> ustring list)" where
  "plain_parse_qs q =
     (let fields = map (\<lambda>f. (plain_unquote_plus (takeWhile (\<lambda>c. c \<noteq> uc CHR ''='') f),
                              plain_unquote_plus (drop 1 (dropWhile (\<lambda>c. c \<noteq> uc CHR ''='') f))))
                       (str_split (uc CHR ''&'') q)
      in (\<lambda>name. case filter (\<lambda>(n, v). n = name \<and> v \<noteq> []) fields of
                     [] \<Rightarrow> None
                   | found \<Rightarrow> Some (map snd found)))"

definition plain_library :: library where
  "plain_library = \<lparr>
     urlparse = plain_urlparse,
     parse_qs = plain_parse_qs,
     unquote = (\<lambda>s. s),
     unquote_plus = plain_unquote_plus,
     super_convert_img = (\<lambda>el text.
       ustr ''!['' @ (case el (ustr ''alt'') of None \<Rightarrow> [] | Some a \<Rightarrow> a) @ ustr ''](''
         @ (case el (ustr ''src'') of None \<Rightarrow> [] | Some s \<Rightarrow> s) @ ustr '')''),
     super_convert_a = (\<lambda>el text.
       ustr ''['' @ text @ ustr ''](''
         @ (case el (ustr ''href'') of None \<Rightarrow> [] | Some h \<Rightarrow> h) @ ustr '')'') \<rparr>"

definition offline :: world where
  "offline = \<lparr>
     http_get = (\<lambda>u. Inl (RequestError (ustr ''Connection refused''))),
     write_file = (\<lambda>p content. None) \<rparr>"

section \<open>What the proofs ask of the character tables\<close>

text \<open>
  Two facts about the tables of the Python runtime are used for \<open>slugify\<close>: the hyphen
  is not whitespace, and \<^verbatim>\<open>str.lower()\<close> leaves a string as it is when the string is made
  of hyphens and of characters that \<^verbatim>\<open>str.lower()\<close> has itself returned.
\<close>

definition lower_settled :: "unicode \<Rightarrow> bool" where
  "lower_settled U \<longleftrightarrow>
     \<not> isspace U (uc CHR ''-'')
     \<and> (\<forall>s t. set t \<subseteq> insert (uc CHR ''-'') (set (lower U s)) \<longrightarrow> lower U t = t)"

section \<open>Heading levels\<close>

lemma level_of_pos: "1 \<le> level_of t"
  by (cases t) simp_all

lemma final_level_le: "final_level st lvl \<le> lvl"
  by (simp add: final_level_def)

lemma final_level_pos:
  "0 \<le> last_heading_level st \<Longrightarrow> 1 \<le> lvl \<Longrightarrow> 1 \<le> final_level st lvl"
  by (simp add: final_level_def)

lemma final_level_step:
  "last_heading_level st \<noteq> 0 \<Longrightarrow> final_level st lvl \<le> last_heading_level st + 1"
  by (simp add: final_level_def)

lemma convert_h_fields:
  "convert_h U st (tag, el, text) = (st1, out) \<Longrightarrow>
     headings st1 = headings st @ [(final_level st (level_of tag), slugify U (final_text U el text), final_text U el text)]
     \<and> last_heading_level st1 = final_level st (level_of tag)
     \<and> toc_placeholders st1 = toc_placeholders st
     \<and> out = heading_markdown (final_level st (level_of tag)) (final_text U el text)"
  by (auto simp: convert_h_def convert_heading_def Let_def)

lemma convert_hs_levels:
  "convert_hs U st0 calls = (st, outs) \<Longrightarrow> 0 \<le> last_heading_level st0 \<Longrightarrow>
   \<exists>new. headings st = headings st0 @ new \<and> length new = length calls \<and> length outs = length calls
     \<and> (\<forall>i<length calls. outs ! i = heading_markdown (fst (new ! i)) (snd (snd (new ! i))))
     \<and> (\<forall>i<length calls. 1 \<le> fst (new ! i))
     \<and> (calls \<noteq> [] \<longrightarrow> fst (new ! 0) = final_level st0 (level_of (fst (calls ! 0))))
     \<and> (\<forall>i. Suc i < length calls \<longrightarrow> fst (new ! Suc i) \<le> fst (new ! i) + 1)
     \<and> last_heading_level st = (if calls = [] then last_heading_level st0 else fst (last new))"
proof (induction calls arbitrary: st0 st outs)
  case Nil
  then show ?case by simp
next
  case (Cons call calls)
  obtain tag el ht where call: "call = (tag, el, ht)"
    by (cases call) auto
  obtain st1 out where step: "convert_h U st0 (tag, el, ht) = (st1, out)"
    by (cases "convert_h U st0 (tag, el, ht)") auto
  obtain st2 outs2 where rest: "convert_hs U st1 calls = (st2, outs2)"
    by (cases "convert_hs U st1 calls") auto
  from Cons.prems(1) call step rest have res: "st = st2" "outs = out # outs2"
    by simp_all
  let ?l = "final_level st0 (level_of tag)"
  let ?h = "(?l, slugify U (final_text U el ht), final_text U el ht)"
  from convert_h_fields [OF step]
  have f: "headings st1 = headings st0 @ [?h]" "last_heading_level st1 = ?l"
    "out = heading_markdown ?l (final_text U el ht)"
    by simp_all
  have lpos: "1 \<le> ?l"
    using Cons.prems(2) level_of_pos by (rule final_level_pos)
  then have "0 \<le> last_heading_level st1"
    using f(2) by simp
  from Cons.IH [OF rest this] obtain new where new:
    "headings st2 = headings st1 @ new" "length new = length calls" "length outs2 = length calls"
    "\<forall>i<length calls. outs2 ! i = heading_markdown (fst (new ! i)) (snd (snd (new ! i)))"
    "\<forall>i<length calls. 1 \<le> fst (new ! i)"
    "calls \<noteq> [] \<longrightarrow> fst (new ! 0) = final_level st1 (level_of (fst (calls ! 0)))"
    "\<forall>i. Suc i < length calls \<longrightarrow> fst (new ! Suc i) \<le> fst (new ! i) + 1"
    "last_heading_level st2 = (if calls = [] then last_heading_level st1 else fst (last new))"
    by blast
  have a1: "headings st = headings st0 @ (?h # new)"
    using res new(1) f(1) by simp
  have a2: "length (?h # new) = length (call # calls)" "length outs = length (call # calls)"
    using res new(2,3) by simp_all
  have a3: "\<forall>i<length (call # calls). outs ! i = heading_markdown (fst ((?h # new) ! i)) (snd (snd ((?h # new) ! i)))"
  proof (intro allI impI)
    fix i assume "i < length (call # calls)"
    then show "outs ! i = heading_markdown (fst ((?h # new) ! i)) (snd (snd ((?h # new) ! i)))"
      using res f(3) new(4) by (cases i) simp_all
  qed
  have a4: "\<forall>i<length (call # calls). 1 \<le> fst ((?h # new) ! i)"
  proof (intro allI impI)
    fix i assume "i < length (call # calls)"
    then show "1 \<le> fst ((?h # new) ! i)"
      using lpos new(5) by (cases i) simp_all
  qed
  have a5: "fst ((?h # new) ! 0) = final_level st0 (level_of (fst ((call # calls) ! 0)))"
    using call by simp
  have a6: "\<forall>i. Suc i < length (call # calls) \<longrightarrow> fst ((?h # new) ! Suc i) \<le> fst ((?h # new) ! i) + 1"
  proof (intro allI impI)
    fix i assume i: "Suc i < length (call # calls)"
    show "fst ((?h # new) ! Suc i) \<le> fst ((?h # new) ! i) + 1"
    proof (cases i)
      case 0
      with i have ne: "calls \<noteq> []" by auto
      have "last_heading_level st1 \<noteq> 0" using f(2) lpos by simp
      then have "final_level st1 (level_of (fst (calls ! 0))) \<le> last_heading_level st1 + 1"
        by (rule final_level_step)
      with 0 ne new(6) f(2) show ?thesis by simp
    next
      case (Suc j)
      with i new(7) show ?thesis by simp
    qed
  qed
  have a7: "last_heading_level st = fst (last (?h # new))"
    using res new(8) new(2) f(2) by (cases "calls = []") auto
  from a1 a2 a3 a4 a5 a6 a7 show ?case
    by (intro exI [of _ "?h # new"]) simp
qed

text \<open>
  Claim C10. For every heading, the level that is emitted is never greater than the level
  of its tag. Clamping only lowers a level, and only when the level of the tag is more than
  one above the level of the heading emitted before; a heading whose level is at most the
  previous emitted level plus one is emitted at exactly the level of its tag.
\<close>

theorem clamp_only_lowers:
  assumes "convert_heading U st el heading_text level_from_tag = (st', out)"
  shows "out = heading_markdown (final_level st level_from_tag) (final_text U el heading_text)
    \<and> final_level st level_from_tag \<le> level_from_tag
    \<and> (level_from_tag \<le> last_heading_level st + 1 \<longrightarrow> final_level st level_from_tag = level_from_tag)
    \<and> (final_level st level_from_tag < level_from_tag \<longrightarrow>
         last_heading_level st \<noteq> 0 \<and> last_heading_level st + 1 < level_from_tag
         \<and> final_level st level_from_tag = last_heading_level st + 1)"
proof -
  have "out = heading_markdown (final_level st level_from_tag) (final_text U el heading_text)"
    using assms by (auto simp: convert_heading_def Let_def)
  moreover have "final_level st level_from_tag \<le> level_from_tag"
    by (rule final_level_le)
  moreover have "level_from_tag \<le> last_heading_level st + 1 \<longrightarrow> final_level st level_from_tag = level_from_tag"
    by (simp add: final_level_def)
  moreover have "final_level st level_from_tag < level_from_tag \<longrightarrow>
         last_heading_level st \<noteq> 0 \<and> last_heading_level st + 1 < level_from_tag
         \<and> final_level st level_from_tag = last_heading_level st + 1"
    by (simp add: final_level_def)
  ultimately show ?thesis by blast
qed

theorem clamp_only_lowers_witness:
  "convert_heading ascii \<lparr>headings = [], toc_placeholders = [], last_heading_level = 2\<rparr>
       \<lparr>data_nh_numbering = None, nh_span = None\<rparr> (ustr ''Deep'') 4
     = (\<lparr>headings = [(3, ustr ''deep'', ustr ''Deep'')], toc_placeholders = [], last_heading_level = 3\<rparr>,
        ustr ''\<newline>\<newline>### Deep\<newline>\<newline>'')
   \<and> final_level \<lparr>headings = [], toc_placeholders = [], last_heading_level = 2\<rparr> 4 = 3
   \<and> final_level \<lparr>headings = [], toc_placeholders = [], last_heading_level = 2\<rparr> 3 = 3"
proof -
  have run: "convert_heading ascii \<lparr>headings = [], toc_placeholders = [], last_heading_level = 2\<rparr>
       \<lparr>data_nh_numbering = None, nh_span = None\<rparr> (ustr ''Deep'') 4
     = (\<lparr>headings = [(3, ustr ''deep'', ustr ''Deep'')], toc_placeholders = [], last_heading_level = 3\<rparr>,
        ustr ''\<newline>\<newline>### Deep\<newline>\<newline>'')"
    by code_simp
  have "final_level \<lparr>headings = [], toc_placeholders = [], last_heading_level = 2\<rparr> 3 = 3"
    by (simp add: final_level_def)
  with run clamp_only_lowers [OF run] show ?thesis
    by (simp add: final_level_def)
qed

text \<open>
  Claim C1. For the headings of a document converted by one fresh converter: every heading
  is emitted with the level that is recorded for it, the first heading has the level of
  its tag, the level of a heading is at most the level of the heading before it plus one,
  and after every heading \<open>last_heading_level\<close> is the level just emitted, clamped or not.
\<close>

theorem heading_levels_rise_by_at_most_one:
  assumes "convert_hs U new_converter calls = (st, outs)"
  shows "length (headings st) = length calls \<and> length outs = length calls
    \<and> (\<forall>i<length calls.
          outs ! i = heading_markdown (fst (headings st ! i)) (snd (snd (headings st ! i))))
    \<and> (calls \<noteq> [] \<longrightarrow> fst (headings st ! 0) = level_of (fst (calls ! 0)))
    \<and> (\<forall>i. Suc i < length calls \<longrightarrow> fst (headings st ! Suc i) \<le> fst (headings st ! i) + 1)
    \<and> (calls \<noteq> [] \<longrightarrow> last_heading_level st = fst (last (headings st)))
    \<and> (\<forall>s call. last_heading_level (fst (convert_h U s call))
          = fst (last (headings (fst (convert_h U s call)))))"
proof -
  have "0 \<le> last_heading_level new_converter"
    by (simp add: new_converter_def)
  from convert_hs_levels [OF assms this] obtain new where new:
    "headings st = headings new_converter @ new" "length new = length calls"
    "length outs = length calls"
    "\<forall>i<length calls. outs ! i = heading_markdown (fst (new ! i)) (snd (snd (new ! i)))"
    "calls \<noteq> [] \<longrightarrow> fst (new ! 0) = final_level new_converter (level_of (fst (calls ! 0)))"
    "\<forall>i. Suc i < length calls \<longrightarrow> fst (new ! Suc i) \<le> fst (new ! i) + 1"
    "last_heading_level st = (if calls = [] then last_heading_level new_converter else fst (last new))"
    by blast
  have hs: "headings st = new"
    using new(1) by (simp add: new_converter_def)
  have first: "final_level new_converter l = l" for l
    by (simp add: final_level_def new_converter_def)
  have step: "last_heading_level (fst (convert_h U s call))
      = fst (last (headings (fst (convert_h U s call))))" for s call
    by (cases call) (simp add: convert_h_def convert_heading_def Let_def)
  show ?thesis
    using new(2-7) step unfolding hs first by simp
qed

theorem heading_levels_rise_by_at_most_one_witness:
  "convert_hs ascii new_converter
       [(H2, \<lparr>data_nh_numbering = None, nh_span = None\<rparr>, ustr ''A''),
        (H4, \<lparr>data_nh_numbering = None, nh_span = None\<rparr>, ustr ''B b'')]
     = (\<lparr>headings = [(2, ustr ''a'', ustr ''A''), (3, ustr ''b-b'', ustr ''B b'')],
          toc_placeholders = [], last_heading_level = 3\<rparr>,
        [ustr ''\<newline>\<newline>## A\<newline>\<newline>'', ustr ''\<newline>\<newline>### B b\<newline>\<newline>''])
   \<and> (3::int) \<le> 2 + 1 \<and> level_of H2 = 2"
proof -
  have run: "convert_hs ascii new_converter
       [(H2, \<lparr>data_nh_numbering = None, nh_span = None\<rparr>, ustr ''A''),
        (H4, \<lparr>data_nh_numbering = None, nh_span = None\<rparr>, ustr ''B b'')]
     = (\<lparr>headings = [(2, ustr ''a'', ustr ''A''), (3, ustr ''b-b'', ustr ''B b'')],
          toc_placeholders = [], last_heading_level = 3\<rparr>,
        [ustr ''\<newline>\<newline>## A\<newline>\<newline>'', ustr ''\<newline>\<newline>### B b\<newline>\<newline>''])"
    by code_simp
  from heading_levels_rise_by_at_most_one [OF run] run show ?thesis
    by simp
qed

section \<open>The table of contents: rendering\<close>

lemma concat_replicate_two: "concat (replicate n [a, a]) = replicate (2 * n) a"
  by (induction n) simp_all

text \<open>
  Claim C6. When the converter has emitted no placeholder for a table of contents,
  \<open>finalize_toc\<close> returns the text it is given, whatever the text is.
\<close>

theorem finalize_toc_without_placeholders:
  "length (toc_placeholders st) = 0 \<Longrightarrow> finalize_toc st text = text"
  by (simp add: finalize_toc_def)

theorem finalize_toc_without_placeholders_witness:
  "length (toc_placeholders (fst (convert_heading ascii new_converter
       \<lparr>data_nh_numbering = None, nh_span = None\<rparr> (ustr ''Intro'') 1))) = 0
   \<and> finalize_toc (fst (convert_heading ascii new_converter
       \<lparr>data_nh_numbering = None, nh_span = None\<rparr> (ustr ''Intro'') 1)) (ustr ''# Intro <<<TOC-0>>>'')
     = ustr ''# Intro <<<TOC-0>>>''"
proof -
  have h: "length (toc_placeholders (fst (convert_heading ascii new_converter
       \<lparr>data_nh_numbering = None, nh_span = None\<rparr> (ustr ''Intro'') 1))) = 0"
    by (simp add: convert_heading_def new_converter_def Let_def)
  from finalize_toc_without_placeholders [OF h] h show ?thesis
    by simp
qed

text \<open>
  Claim C8. A line of the list is indented by two spaces for every level above the first
  and links the text of the heading to \<open>#\<close> and its anchor; the list has one line for each
  recorded heading, in order, joined by newlines and followed by an empty line. For the
  headings \<open>(1, intro, Intro)\<close> and \<open>(2, sub-a, Sub A)\<close> the result is the text given in
  the specification.
\<close>

theorem toc_bullet_list:
  "toc_line (level, anchor, heading_text) =
      replicate (2 * nat (level - 1)) (uc CHR '' '') @ ustr ''- ['' @ heading_text @ ustr ''](#''
        @ anchor @ ustr '')''
   \<and> (all_headings \<noteq> [] \<longrightarrow>
        toc_markdown all_headings =
          str_join (ustr ''\<newline>'') (map toc_line all_headings) @ ustr ''\<newline>\<newline>''
        \<and> length (map toc_line all_headings) = length all_headings)
   \<and> toc_markdown [(1, ustr ''intro'', ustr ''Intro''), (2, ustr ''sub-a'', ustr ''Sub A'')] =
        ustr ''- [Intro](#intro)\<newline>  - [Sub A](#sub-a)\<newline>\<newline>''"
proof -
  have "concat (replicate (nat (level - 1)) (ustr ''  '')) = replicate (2 * nat (level - 1)) (uc CHR '' '')"
    by (simp add: ustr_def concat_replicate_two)
  then have "toc_line (level, anchor, heading_text) =
      replicate (2 * nat (level - 1)) (uc CHR '' '') @ ustr ''- ['' @ heading_text @ ustr ''](#''
        @ anchor @ ustr '')''"
    by (simp add: toc_line_def)
  moreover have "toc_markdown [(1, ustr ''intro'', ustr ''Intro''), (2, ustr ''sub-a'', ustr ''Sub A'')] =
        ustr ''- [Intro](#intro)\<newline>  - [Sub A](#sub-a)\<newline>\<newline>''"
    by code_simp
  ultimately show ?thesis
    by (simp add: toc_markdown_def)
qed

theorem toc_bullet_list_witness:
  "[(3, ustr ''deep'', ustr ''Deep'')] \<noteq> []
   \<and> toc_markdown [(3, ustr ''deep'', ustr ''Deep'')] = ustr ''    - [Deep](#deep)\<newline>\<newline>''
   \<and> toc_line (3, ustr ''deep'', ustr ''Deep'') = ustr ''    - [Deep](#deep)''"
  using toc_bullet_list [of 3 "ustr ''deep''" "ustr ''Deep''" "[(3, ustr ''deep'', ustr ''Deep'')]"]
  by (simp add: ustr_def eval_nat_numeral)

section \<open>Anchors\<close>

lemma set_re_sub_runs: "set (re_sub_runs C r s) \<subseteq> set s \<union> set r"
proof (induction C r s rule: re_sub_runs.induct)
  case (1 C r)
  then show ?case by simp
next
  case (2 C r c cs)
  have "set (dropWhile C cs) \<subseteq> set cs"
    by (rule set_dropWhileD [THEN subsetI])
  with 2 show ?case by auto
qed

lemma re_sub_runs_none_left:
  "\<forall>c\<in>set r. \<not> C c \<Longrightarrow> \<forall>c\<in>set (re_sub_runs C r s). \<not> C c"
proof (induction C r s rule: re_sub_runs.induct)
  case (1 C r)
  then show ?case by simp
next
  case (2 C r c cs)
  show ?case
  proof (cases "C c")
    case True
    have a: "\<forall>c\<in>set (re_sub_runs C r (dropWhile C cs)). \<not> C c"
      by (rule 2(1) [OF True 2(3)])
    have "re_sub_runs C r (c # cs) = r @ re_sub_runs C r (dropWhile C cs)"
      using True by simp
    then show ?thesis
      using a 2(3) by (metis Un_iff set_append)
  next
    case False
    have a: "\<forall>c\<in>set (re_sub_runs C r cs). \<not> C c"
      by (rule 2(2) [OF False 2(3)])
    have "re_sub_runs C r (c # cs) = c # re_sub_runs C r cs"
      using False by simp
    then show ?thesis
      using a False by (metis set_ConsD)
  qed
qed

lemma re_sub_runs_id: "\<forall>c\<in>set s. \<not> C c \<Longrightarrow> re_sub_runs C r s = s"
  by (induction s) simp_all

lemma re_sub_runs_start:
  "s = [] \<or> \<not> C (hd s) \<Longrightarrow> r \<noteq> [] \<Longrightarrow> re_sub_runs C r s = [] \<or> \<not> C (hd (re_sub_runs C r s))"
proof (cases s)
  case Nil
  then show ?thesis by simp
next
  case (Cons c cs)
  assume "s = [] \<or> \<not> C (hd s)"
  with Cons have "\<not> C c" by simp
  with Cons show ?thesis by simp
qed

lemma dropWhile_start: "dropWhile C s = [] \<or> \<not> C (hd (dropWhile C s))"
  by (induction s) auto

lemma dropWhile_no_start: "s = [] \<or> \<not> C (hd s) \<Longrightarrow> dropWhile C s = s"
  by (cases s) auto

lemma re_sub_runs_idem:
  "C x \<Longrightarrow> re_sub_runs C [x] (re_sub_runs C [x] s) = re_sub_runs C [x] s"
proof (induction C "[x]" s rule: re_sub_runs.induct)
  case (1 C)
  then show ?case by simp
next
  case (2 C c cs)
  show ?case
  proof (cases "C c")
    case True
    let ?t = "re_sub_runs C [x] (dropWhile C cs)"
    have "?t = [] \<or> \<not> C (hd ?t)"
      using dropWhile_start [of C cs] by (intro re_sub_runs_start) simp_all
    then have "dropWhile C ?t = ?t"
      by (rule dropWhile_no_start)
    moreover have "re_sub_runs C [x] ?t = ?t"
      using 2 True by simp
    ultimately show ?thesis
      using True \<open>C x\<close> by simp
  next
    case False
    with 2 show ?thesis by simp
  qed
qed

lemma strip_id: "\<forall>c\<in>set s. \<not> isspace U c \<Longrightarrow> strip U s = s"
proof -
  assume a: "\<forall>c\<in>set s. \<not> isspace U c"
  then have "dropWhile (isspace U) s = s"
    by (cases s) auto
  moreover from a have "dropWhile (isspace U) (rev s) = rev s"
    by (cases "rev s") (auto dest: arg_cong [where f = set])
  ultimately show ?thesis
    by (simp add: strip_def)
qed

lemma lower_settled_ascii: "lower_settled ascii"
proof -
  let ?f = "\<lambda>c::nat. if 65 \<le> c \<and> c \<le> 90 then c + 32 else c"
  have "map ?f t = t" if "set t \<subseteq> insert 45 (set (map ?f s))" for s t
  proof (rule map_idI)
    fix c assume "c \<in> set t"
    with that have "c = 45 \<or> c \<in> ?f ` set s" by auto
    then show "?f c = c" by auto
  qed
  then show ?thesis
    by (simp add: lower_settled_def ascii_def)
qed

text \<open>
  Claim C4. \<open>slugify\<close> is idempotent: applied to one of its own results it returns that
  result, for every text.
\<close>

theorem slugify_idempotent:
  assumes "lower_settled U"
  shows "slugify U (slugify U x) = slugify U x"
proof -
  define h :: nat where "h = uc CHR ''-''"
  define keep where "keep = (\<lambda>c. isword U c \<or> isspace U c \<or> c = h)"
  define s1 where "s1 = lower U (strip U x)"
  define s2 where "s2 = filter keep s1"
  define s3 where "s3 = re_sub_runs (isspace U) [h] s2"
  define y where "y = re_sub_runs (\<lambda>c. c = h) [h] s3"
  have slug: "slugify U t = re_sub_runs (\<lambda>c. c = h) [h]
      (re_sub_runs (isspace U) [h] (filter keep (lower U (strip U t))))" for t
    by (simp add: slugify_def ustr_def h_def keep_def)
  have y: "slugify U x = y"
    unfolding slug y_def s3_def s2_def s1_def ..
  from assms have nsp: "\<not> isspace U h"
    and settled: "\<And>s t. set t \<subseteq> insert h (set (lower U s)) \<Longrightarrow> lower U t = t"
    unfolding lower_settled_def h_def by blast+
  have s3_nosp: "\<forall>c\<in>set s3. \<not> isspace U c"
    unfolding s3_def using nsp by (intro re_sub_runs_none_left) simp
  have set_y: "set y \<subseteq> set s3 \<union> {h}"
    unfolding y_def using set_re_sub_runs [of "\<lambda>c. c = h" "[h]" s3] by simp
  have set_s3: "set s3 \<subseteq> set s2 \<union> {h}"
    unfolding s3_def using set_re_sub_runs [of "isspace U" "[h]" s2] by simp
  have set_s2: "set s2 \<subseteq> set s1" and keep_s2: "\<forall>c\<in>set s2. keep c"
    unfolding s2_def by simp_all
  have keep_h: "keep h"
    by (simp add: keep_def)
  have y_nosp: "\<forall>c\<in>set y. \<not> isspace U c"
    using set_y s3_nosp nsp by blast
  have y_keep: "\<forall>c\<in>set y. keep c"
    using set_y set_s3 keep_s2 keep_h by blast
  have y_low: "set y \<subseteq> insert h (set (lower U (strip U x)))"
    using set_y set_s3 set_s2 unfolding s1_def by blast
  have 1: "strip U y = y"
    using y_nosp by (rule strip_id)
  have 2: "lower U y = y"
    using y_low by (rule settled)
  have 3: "filter keep y = y"
    using y_keep by (simp only: filter_id_conv)
  have 4: "re_sub_runs (isspace U) [h] y = y"
    using y_nosp by (rule re_sub_runs_id)
  have "re_sub_runs (\<lambda>c. c = h) [h] (re_sub_runs (\<lambda>c. c = h) [h] s3)
      = re_sub_runs (\<lambda>c. c = h) [h] s3"
    by (rule re_sub_runs_idem) simp
  then have 5: "re_sub_runs (\<lambda>c. c = h) [h] y = y"
    unfolding y_def .
  have "slugify U y = y"
    unfolding slug 1 2 3 4 5 ..
  with y show ?thesis by simp
qed

theorem slugify_idempotent_witness:
  "lower_settled ascii
   \<and> slugify ascii (ustr ''  Hello,  World -- ok! '') = ustr ''hello-world-ok''
   \<and> slugify ascii (slugify ascii (ustr ''  Hello,  World -- ok! '')) = ustr ''hello-world-ok''"
proof -
  have v: "slugify ascii (ustr ''  Hello,  World -- ok! '') = ustr ''hello-world-ok''"
    by code_simp
  have "slugify ascii (slugify ascii (ustr ''  Hello,  World -- ok! ''))
      = slugify ascii (ustr ''  Hello,  World -- ok! '')"
    using lower_settled_ascii by (rule slugify_idempotent)
  with v lower_settled_ascii show ?thesis
    by (simp only: simp_thms)
qed

section \<open>The text of a heading\<close>

text \<open>
  Claim C3. The comment above the test in \<^verbatim>\<open>_convert_heading\<close> says that the prefix of
  the element is left out when the text of the heading already starts with a digit and a
  dot, and the claim says the same. The pattern \<^verbatim>\<open>^\d+(\.\d+)*\<close> of the code asks for a
  digit only. The heading \<open>2024 Roadmap\<close> has no dot after its digits and the element
  gives the prefix \<open>3. \<close>; the pattern matches \<open>2024\<close> and the heading is emitted as
  \<open>2024 Roadmap\<close>, without the prefix, where the claim and the comment ask for
  \<open>3. 2024 Roadmap\<close>.
\<close>

theorem prefix_dropped_without_a_dot:
  "heading_prefix ascii \<lparr>data_nh_numbering = Some (ustr ''3. ''), nh_span = None\<rparr> = ustr ''3. ''
   \<and> heading_text_stripped ascii (ustr ''2024 Roadmap'') = ustr ''2024 Roadmap''
   \<and> re_match_numbering ascii (ustr ''2024 Roadmap'') = Some (ustr ''2024'')
   \<and> final_text ascii \<lparr>data_nh_numbering = Some (ustr ''3. ''), nh_span = None\<rparr>
         (ustr ''2024 Roadmap'') = ustr ''2024 Roadmap''
   \<and> snd (convert_heading ascii new_converter
          \<lparr>data_nh_numbering = Some (ustr ''3. ''), nh_span = None\<rparr> (ustr ''2024 Roadmap'') 2)
       = ustr ''\<newline>\<newline>## 2024 Roadmap\<newline>\<newline>''"
  by code_simp

section \<open>Links\<close>

lemma rstrip_slash_id: "s = [] \<or> last s \<noteq> uc CHR ''/'' \<Longrightarrow> rstrip_slash s = s"
proof -
  assume a: "s = [] \<or> last s \<noteq> uc CHR ''/''"
  have "dropWhile (\<lambda>c. c = uc CHR ''/'') (rev s) = rev s"
  proof (cases "rev s")
    case Nil
    then show ?thesis by simp
  next
    case (Cons c cs)
    then have "s \<noteq> []" by auto
    with a have "hd (rev s) \<noteq> uc CHR ''/''"
      by (simp add: hd_rev)
    with Cons show ?thesis by simp
  qed
  then show ?thesis
    by (simp add: rstrip_slash_def)
qed

lemma rstrip_slash_base_url:
  assumes "netloc parsed_url \<noteq> []" "last (netloc parsed_url) \<noteq> uc CHR ''/''"
  shows "rstrip_slash (base_url_of parsed_url) = base_url_of parsed_url"
proof (rule rstrip_slash_id)
  have "last (base_url_of parsed_url) = last (netloc parsed_url)"
    using assms(1) by (simp add: base_url_of_def)
  with assms(2) show "base_url_of parsed_url = [] \<or> last (base_url_of parsed_url) \<noteq> uc CHR ''/''"
    by simp
qed

text \<open>
  Claim C9. For an anchor with an \<open>href\<close>: when the \<open>href\<close> begins with \<^verbatim>\<open>http://\<close>,
  \<^verbatim>\<open>https://\<close> or \<^verbatim>\<open>mailto:\<close>, the attributes of the element are left as they are; every
  other \<open>href\<close> that is not empty is replaced by \<^verbatim>\<open>BASE_URL.rstrip("/")\<close> followed by the
  \<open>href\<close>, which is the base origin followed by the \<open>href\<close> when the base origin is
  \<^verbatim>\<open>scheme://host\<close> with a host that is not empty and does not end in a slash. The Markdown
  returned is what the library renders for the element after that.
\<close>

theorem link_resolver:
  assumes "el (ustr ''href'') = Some href"
  shows "(prefix (ustr ''http://'') href \<or> prefix (ustr ''https://'') href
            \<or> prefix (ustr ''mailto:'') href \<longrightarrow>
          fst (convert_a L base_url el text) = el)
    \<and> (href \<noteq> [] \<and> \<not> prefix (ustr ''http://'') href \<and> \<not> prefix (ustr ''https://'') href
            \<and> \<not> prefix (ustr ''mailto:'') href \<longrightarrow>
          fst (convert_a L base_url el text) = el(ustr ''href'' \<mapsto> rstrip_slash base_url @ href))
    \<and> (href \<noteq> [] \<and> \<not> prefix (ustr ''http://'') href \<and> \<not> prefix (ustr ''https://'') href
            \<and> \<not> prefix (ustr ''mailto:'') href
            \<and> netloc parsed_url \<noteq> [] \<and> last (netloc parsed_url) \<noteq> uc CHR ''/'' \<longrightarrow>
          fst (convert_a L (base_url_of parsed_url) el text)
            = el(ustr ''href'' \<mapsto> base_url_of parsed_url @ href))
    \<and> snd (convert_a L base_url el text) = super_convert_a L (fst (convert_a L base_url el text)) text"
proof -
  have 1: "fst (convert_a L b el text) = el" if "re_match_scheme href" for b
    using that assms by (simp add: convert_a_def)
  have 2: "fst (convert_a L b el text) = el(ustr ''href'' \<mapsto> rstrip_slash b @ href)"
    if "href \<noteq> []" "\<not> re_match_scheme href" for b
    using that assms by (simp add: convert_a_def Let_def)
  have 3: "snd (convert_a L base_url el text) = super_convert_a L (fst (convert_a L base_url el text)) text"
    by (simp add: convert_a_def Let_def)
  have m: "re_match_scheme href \<longleftrightarrow> prefix (ustr ''http://'') href \<or> prefix (ustr ''https://'') href
            \<or> prefix (ustr ''mailto:'') href"
    by (rule re_match_scheme_def)
  show ?thesis
    using 1 [of base_url] 2 [of base_url] 2 [of "base_url_of parsed_url"] 3
      rstrip_slash_base_url [of parsed_url]
    unfolding m by metis
qed

theorem link_resolver_witness:
  "fst (convert_a plain_library (base_url_of \<lparr>scheme = ustr ''https'', netloc = ustr ''wiki.example.org'',
               path = ustr ''/display/S/T'', query = []\<rparr>)
             [ustr ''href'' \<mapsto> ustr ''/x/y''] (ustr ''a link'')) (ustr ''href'')
       = Some (ustr ''https://wiki.example.org/x/y'')
   \<and> fst (convert_a plain_library (ustr ''https://wiki.example.org'')
             [ustr ''href'' \<mapsto> ustr ''mailto:someone@example.org''] (ustr ''mail'')) (ustr ''href'')
       = Some (ustr ''mailto:someone@example.org'')"
proof -
  let ?p = "\<lparr>scheme = ustr ''https'', netloc = ustr ''wiki.example.org'',
               path = ustr ''/display/S/T'', query = []\<rparr>"
  have h: "[ustr ''href'' \<mapsto> ustr ''/x/y''] (ustr ''href'') = Some (ustr ''/x/y'')"
    by simp
  have c: "ustr ''/x/y'' \<noteq> [] \<and> \<not> prefix (ustr ''http://'') (ustr ''/x/y'')
      \<and> \<not> prefix (ustr ''https://'') (ustr ''/x/y'') \<and> \<not> prefix (ustr ''mailto:'') (ustr ''/x/y'')
      \<and> netloc ?p \<noteq> [] \<and> last (netloc ?p) \<noteq> uc CHR ''/''"
    by (simp add: ustr_def)
  have b: "base_url_of ?p @ ustr ''/x/y'' = ustr ''https://wiki.example.org/x/y''"
    by (simp add: base_url_of_def ustr_def)
  from link_resolver [of "[ustr ''href'' \<mapsto> ustr ''/x/y'']" "ustr ''/x/y''" plain_library _ "ustr ''a link''" ?p, OF h] c
  have "fst (convert_a plain_library (base_url_of ?p) [ustr ''href'' \<mapsto> ustr ''/x/y''] (ustr ''a link''))
      = [ustr ''href'' \<mapsto> ustr ''/x/y''](ustr ''href'' \<mapsto> base_url_of ?p @ ustr ''/x/y'')"
    by blast
  then have 1: "fst (convert_a plain_library (base_url_of ?p) [ustr ''href'' \<mapsto> ustr ''/x/y''] (ustr ''a link''))
      (ustr ''href'') = Some (ustr ''https://wiki.example.org/x/y'')"
    using b by simp
  let ?m = "[ustr ''href'' \<mapsto> ustr ''mailto:someone@example.org'']"
  have hm: "?m (ustr ''href'') = Some (ustr ''mailto:someone@example.org'')"
    by simp
  have cm: "prefix (ustr ''mailto:'') (ustr ''mailto:someone@example.org'')"
    by (simp add: ustr_def)
  from link_resolver [of ?m "ustr ''mailto:someone@example.org''" plain_library
      "ustr ''https://wiki.example.org''" "ustr ''mail''", OF hm] cm
  have "fst (convert_a plain_library (ustr ''https://wiki.example.org'') ?m (ustr ''mail'')) = ?m"
    by blast
  then have 2: "fst (convert_a plain_library (ustr ''https://wiki.example.org'') ?m (ustr ''mail''))
      (ustr ''href'') = Some (ustr ''mailto:someone@example.org'')"
    by simp
  from 1 2 show ?thesis by blast
qed

section \<open>The address of the page: shapes\<close>

lemma prefix_contains: "prefix sub s \<Longrightarrow> contains sub s"
  by (cases s) simp_all

lemma contains_append: "contains sub (a @ sub @ b)"
proof (induction a)
  case Nil
  show ?case by (rule prefix_contains) simp
next
  case (Cons c a)
  then show ?case by simp
qed

lemma str_split_no_sep: "sep \<notin> set a \<Longrightarrow> str_split sep a = [a]"
  by (induction a) simp_all

lemma str_split_first: "sep \<notin> set a \<Longrightarrow> str_split sep (a @ sep # b) = a # str_split sep b"
  by (induction a) simp_all

lemma split_display:
  assumes "uc CHR ''/'' \<notin> set sp" "uc CHR ''/'' \<notin> set ti"
  shows "str_split (uc CHR ''/'') (ustr ''/display/'' @ sp @ ustr ''/'' @ ti)
     = [[], ustr ''display'', sp, ti]"
proof -
  have "str_split (uc CHR ''/'') (sp @ uc CHR ''/'' # ti) = [sp, ti]"
    using assms by (simp add: str_split_first str_split_no_sep)
  then show ?thesis
    by (simp add: ustr_def)
qed

lemma split_wiki_spaces:
  assumes "uc CHR ''/'' \<notin> set sp" "uc CHR ''/'' \<notin> set pid" "uc CHR ''/'' \<notin> set ti"
  shows "str_split (uc CHR ''/'') (ustr ''/wiki/spaces/'' @ sp @ ustr ''/pages/'' @ pid @ ustr ''/'' @ ti)
     = [[], ustr ''wiki'', ustr ''spaces'', sp, ustr ''pages'', pid, ti]"
proof -
  have 1: "str_split (uc CHR ''/'') (pid @ uc CHR ''/'' # ti) = [pid, ti]"
    using assms by (simp add: str_split_first str_split_no_sep)
  have "str_split (uc CHR ''/'') (ustr ''pages/'' @ pid @ uc CHR ''/'' # ti) = [ustr ''pages'', pid, ti]"
    using 1 by (simp add: ustr_def)
  then have "str_split (uc CHR ''/'') (sp @ uc CHR ''/'' # ustr ''pages/'' @ pid @ uc CHR ''/'' # ti)
      = [sp, ustr ''pages'', pid, ti]"
    using assms(1) by (simp add: str_split_first)
  then show ?thesis
    by (simp add: ustr_def)
qed

text \<open>
  Claim C2, as the code has it. For a page address that the library parses: a path with
  \<^verbatim>\<open>viewpage.action\<close> and a query with a \<^verbatim>\<open>pageId\<close> gives that page id and nothing
  else; a path \<^verbatim>\<open>/display/SPACE/TITLE\<close> gives the space and the decoded title; a path
  \<^verbatim>\<open>/wiki/spaces/SPACE/pages/N/TITLE\<close> gives the space and the decoded title; and a path
  that contains neither \<^verbatim>\<open>viewpage.action\<close> nor \<^verbatim>\<open>display\<close> nor both \<^verbatim>\<open>wiki\<close> and
  \<^verbatim>\<open>spaces\<close> raises the error for an address that is not recognized. The witness runs
  the three addresses of the specification.
\<close>

theorem page_address_shapes:
  assumes "urlparse L page_url = Inr parsed"
  shows "(contains (ustr ''viewpage.action'') (path parsed)
          \<and> parse_qs L (query parsed) (ustr ''pageId'') = Some (page_id # others) \<and> page_id \<noteq> [] \<longrightarrow>
          extract_page_info L page_url = Inr (None, None, Some page_id))
    \<and> (\<not> contains (ustr ''viewpage.action'') (path parsed)
          \<and> path parsed = ustr ''/display/'' @ space_key @ ustr ''/'' @ title
          \<and> uc CHR ''/'' \<notin> set space_key \<and> uc CHR ''/'' \<notin> set title \<longrightarrow>
          extract_page_info L page_url = Inr (Some space_key, Some (unquote_plus L title), None))
    \<and> (\<not> contains (ustr ''viewpage.action'') (path parsed)
          \<and> \<not> contains (ustr ''display'') (path parsed)
          \<and> path parsed = ustr ''/wiki/spaces/'' @ space_key @ ustr ''/pages/'' @ n @ ustr ''/'' @ title
          \<and> uc CHR ''/'' \<notin> set space_key \<and> uc CHR ''/'' \<notin> set n \<and> uc CHR ''/'' \<notin> set title \<longrightarrow>
          extract_page_info L page_url = Inr (Some space_key, Some (unquote_plus L title), None))
    \<and> (\<not> contains (ustr ''viewpage.action'') (path parsed)
          \<and> \<not> contains (ustr ''display'') (path parsed)
          \<and> \<not> (contains (ustr ''wiki'') (path parsed) \<and> contains (ustr ''spaces'') (path parsed)) \<longrightarrow>
          extract_page_info L page_url = Inl (ValueError (ustr
            ''PAGE_URL does not follow a recognized Confluence URL format.'')))"
proof -
  have a: "extract_page_info L page_url = Inr (None, None, Some page_id)"
    if "contains (ustr ''viewpage.action'') (path parsed)"
      "parse_qs L (query parsed) (ustr ''pageId'') = Some (page_id # others)" "page_id \<noteq> []"
    using that assms by (simp add: extract_page_info_def qs_first_def truthy_def)
  have b: "extract_page_info L page_url = Inr (Some space_key, Some (unquote_plus L title), None)"
    if "\<not> contains (ustr ''viewpage.action'') (path parsed)"
      "path parsed = ustr ''/display/'' @ space_key @ ustr ''/'' @ title"
      "uc CHR ''/'' \<notin> set space_key" "uc CHR ''/'' \<notin> set title"
  proof -
    have "path parsed = ustr ''/'' @ ustr ''display'' @ (ustr ''/'' @ space_key @ ustr ''/'' @ title)"
      using that(2) by (simp add: ustr_def)
    then have 1: "contains (ustr ''display'') (path parsed)"
      by (simp only: contains_append)
    have 2: "str_split (uc CHR ''/'') (path parsed) = [[], ustr ''display'', space_key, title]"
      unfolding that(2) using that(3,4) by (rule split_display)
    show ?thesis
      using assms that(1) 1 2 by (simp add: extract_page_info_def)
  qed
  have c: "extract_page_info L page_url = Inr (Some space_key, Some (unquote_plus L title), None)"
    if "\<not> contains (ustr ''viewpage.action'') (path parsed)"
      "\<not> contains (ustr ''display'') (path parsed)"
      "path parsed = ustr ''/wiki/spaces/'' @ space_key @ ustr ''/pages/'' @ n @ ustr ''/'' @ title"
      "uc CHR ''/'' \<notin> set space_key" "uc CHR ''/'' \<notin> set n" "uc CHR ''/'' \<notin> set title"
  proof -
    have "path parsed = ustr ''/'' @ ustr ''wiki'' @ (ustr ''/spaces/'' @ space_key @ ustr ''/pages/'' @ n @ ustr ''/'' @ title)"
      using that(3) by (simp add: ustr_def)
    then have 1: "contains (ustr ''wiki'') (path parsed)"
      by (simp only: contains_append)
    have "path parsed = ustr ''/wiki/'' @ ustr ''spaces'' @ (ustr ''/'' @ space_key @ ustr ''/pages/'' @ n @ ustr ''/'' @ title)"
      using that(3) by (simp add: ustr_def)
    then have 2: "contains (ustr ''spaces'') (path parsed)"
      by (simp only: contains_append)
    have 3: "str_split (uc CHR ''/'') (path parsed)
        = [[], ustr ''wiki'', ustr ''spaces'', space_key, ustr ''pages'', n, title]"
      unfolding that(3) using that(4,5,6) by (rule split_wiki_spaces)
    show ?thesis
      using assms that(1,2) 1 2 3 by (simp add: extract_page_info_def)
  qed
  have d: "extract_page_info L page_url = Inl (ValueError (ustr
            ''PAGE_URL does not follow a recognized Confluence URL format.''))"
    if "\<not> contains (ustr ''viewpage.action'') (path parsed)"
      "\<not> contains (ustr ''display'') (path parsed)"
      "\<not> (contains (ustr ''wiki'') (path parsed) \<and> contains (ustr ''spaces'') (path parsed))"
    using that assms by (auto simp add: extract_page_info_def)
  from a b c d show ?thesis by blast
qed

theorem page_address_shapes_witness:
  "extract_page_info plain_library (ustr ''https://wiki.example.org/pages/viewpage.action?pageId=123'')
     = Inr (None, None, Some (ustr ''123''))
   \<and> extract_page_info plain_library (ustr ''https://wiki.example.org/display/SPACE/My+Page'')
     = Inr (Some (ustr ''SPACE''), Some (ustr ''My Page''), None)
   \<and> extract_page_info plain_library (ustr ''https://wiki.example.org/wiki/spaces/SPACE/pages/000/My+Page'')
     = Inr (Some (ustr ''SPACE''), Some (ustr ''My Page''), None)
   \<and> extract_page_info plain_library (ustr ''https://wiki.example.org/x/y'')
     = Inl (ValueError (ustr ''PAGE_URL does not follow a recognized Confluence URL format.''))"
proof -
  let ?L = plain_library
  have up: "unquote_plus ?L (ustr ''My+Page'') = ustr ''My Page''"
    by code_simp
  have slash: "uc CHR ''/'' \<notin> set (ustr ''SPACE'')" "uc CHR ''/'' \<notin> set (ustr ''My+Page'')"
    "uc CHR ''/'' \<notin> set (ustr ''000'')"
    by (simp_all add: ustr_def)
  let ?pa = "\<lparr>scheme = ustr ''https'', netloc = ustr ''wiki.example.org'',
               path = ustr ''/pages/viewpage.action'', query = ustr ''pageId=123''\<rparr>"
  have a1: "urlparse ?L (ustr ''https://wiki.example.org/pages/viewpage.action?pageId=123'') = Inr ?pa"
    by code_simp
  have a2: "contains (ustr ''viewpage.action'') (path ?pa)"
    by code_simp
  have a3: "parse_qs ?L (query ?pa) (ustr ''pageId'') = Some (ustr ''123'' # [])"
    by code_simp
  have a4: "ustr ''123'' \<noteq> []"
    by (simp add: ustr_def)
  from page_address_shapes [OF a1, of "ustr ''123''" "[]"] a2 a3 a4
  have a: "extract_page_info ?L (ustr ''https://wiki.example.org/pages/viewpage.action?pageId=123'')
     = Inr (None, None, Some (ustr ''123''))"
    by blast
  let ?pb = "\<lparr>scheme = ustr ''https'', netloc = ustr ''wiki.example.org'',
               path = ustr ''/display/SPACE/My+Page'', query = []\<rparr>"
  have b1: "urlparse ?L (ustr ''https://wiki.example.org/display/SPACE/My+Page'') = Inr ?pb"
    by code_simp
  have b2: "\<not> contains (ustr ''viewpage.action'') (path ?pb)"
    by code_simp
  have b3: "path ?pb = ustr ''/display/'' @ ustr ''SPACE'' @ ustr ''/'' @ ustr ''My+Page''"
    by (simp add: ustr_def)
  from page_address_shapes [OF b1, of _ _ "ustr ''SPACE''" "ustr ''My+Page''"] b2 b3 slash
  have "extract_page_info ?L (ustr ''https://wiki.example.org/display/SPACE/My+Page'')
     = Inr (Some (ustr ''SPACE''), Some (unquote_plus ?L (ustr ''My+Page'')), None)"
    by blast
  then have b: "extract_page_info ?L (ustr ''https://wiki.example.org/display/SPACE/My+Page'')
     = Inr (Some (ustr ''SPACE''), Some (ustr ''My Page''), None)"
    unfolding up .
  let ?pc = "\<lparr>scheme = ustr ''https'', netloc = ustr ''wiki.example.org'',
               path = ustr ''/wiki/spaces/SPACE/pages/000/My+Page'', query = []\<rparr>"
  have c1: "urlparse ?L (ustr ''https://wiki.example.org/wiki/spaces/SPACE/pages/000/My+Page'') = Inr ?pc"
    by code_simp
  have c2: "\<not> contains (ustr ''viewpage.action'') (path ?pc)" "\<not> contains (ustr ''display'') (path ?pc)"
    by code_simp+
  have c3: "path ?pc = ustr ''/wiki/spaces/'' @ ustr ''SPACE'' @ ustr ''/pages/'' @ ustr ''000'' @ ustr ''/''
      @ ustr ''My+Page''"
    by (simp add: ustr_def)
  from page_address_shapes [OF c1, of _ _ "ustr ''SPACE''" "ustr ''My+Page''" "ustr ''000''"] c2 c3 slash
  have "extract_page_info ?L (ustr ''https://wiki.example.org/wiki/spaces/SPACE/pages/000/My+Page'')
     = Inr (Some (ustr ''SPACE''), Some (unquote_plus ?L (ustr ''My+Page'')), None)"
    by blast
  then have c: "extract_page_info ?L (ustr ''https://wiki.example.org/wiki/spaces/SPACE/pages/000/My+Page'')
     = Inr (Some (ustr ''SPACE''), Some (ustr ''My Page''), None)"
    unfolding up .
  let ?pd = "\<lparr>scheme = ustr ''https'', netloc = ustr ''wiki.example.org'',
               path = ustr ''/x/y'', query = []\<rparr>"
  have d1: "urlparse ?L (ustr ''https://wiki.example.org/x/y'') = Inr ?pd"
    by code_simp
  have d2: "\<not> contains (ustr ''viewpage.action'') (path ?pd)" "\<not> contains (ustr ''display'') (path ?pd)"
    "\<not> contains (ustr ''wiki'') (path ?pd)"
    by code_simp+
  from page_address_shapes [OF d1] d2
  have d: "extract_page_info ?L (ustr ''https://wiki.example.org/x/y'')
     = Inl (ValueError (ustr ''PAGE_URL does not follow a recognized Confluence URL format.''))"
    by blast
  from a b c d show ?thesis by blast
qed

text \<open>
  Claim C2 as it is worded does not hold of the code: the shapes are recognized by a
  substring of the path, so a path of another shape that merely contains \<^verbatim>\<open>display\<close>
  raises no error. The path \<^verbatim>\<open>/x/mydisplay/y\<close> is taken for a page in the space
  \<^verbatim>\<open>mydisplay\<close>.
\<close>

theorem other_path_shape_counterexample:
  "urlparse plain_library (ustr ''https://wiki.example.org/x/mydisplay/y'')
     = Inr \<lparr>scheme = ustr ''https'', netloc = ustr ''wiki.example.org'',
              path = ustr ''/x/mydisplay/y'', query = []\<rparr>
   \<and> extract_page_info plain_library (ustr ''https://wiki.example.org/x/mydisplay/y'')
     = Inr (Some (ustr ''mydisplay''), Some (ustr ''y''), None)"
  by code_simp

section \<open>Images\<close>

text \<open>
  Claim C5. When the download of the resolved source of an image raises, \<open>convert_img\<close>
  raises nothing: it prints the error, sets \<open>src\<close> of the element to the resolved
  address and not to a local path, returns the Markdown of the image followed by an empty
  line, and leaves the converter as it was, so what is converted afterwards is converted
  as if the download had not been tried.
\<close>

theorem image_download_failure_is_not_fatal:
  assumes "image_src base_url el = Some src"
    and "\<not> contains (ustr ''status-macro/placeholder'') src"
    and "urlparse L src = Inr parsed_src"
    and "download_image W src (images_join (unquote L (basename (path parsed_src)))) = Inl e"
  shows "convert_img L W base_url self el text =
      Inr (self, el(ustr ''src'' \<mapsto> src),
           super_convert_img L (el(ustr ''src'' \<mapsto> src)) text @ ustr ''\<newline>\<newline>'',
           [ustr ''Detected normal image: '' @ src,
            ustr ''Error downloading image '' @ src @ ustr '': '' @ str_of_error e])"
  using assms by (simp add: convert_img_def Let_def)

theorem image_download_failure_is_not_fatal_witness:
  "image_src (ustr ''https://wiki.example.org'') [ustr ''src'' \<mapsto> ustr ''/download/pic.png'']
     = Some (ustr ''https://wiki.example.org/download/pic.png'')
   \<and> download_image offline (ustr ''https://wiki.example.org/download/pic.png'') (ustr ''images/pic.png'')
     = Inl (RequestError (ustr ''Connection refused''))
   \<and> (case convert_img plain_library offline (ustr ''https://wiki.example.org'') new_converter
              [ustr ''src'' \<mapsto> ustr ''/download/pic.png''] [] of
         Inl e \<Rightarrow> False
       | Inr (self, el, markdown, printed) \<Rightarrow>
           self = new_converter
           \<and> el (ustr ''src'') = Some (ustr ''https://wiki.example.org/download/pic.png'')
           \<and> markdown = ustr ''![](https://wiki.example.org/download/pic.png)\<newline>\<newline>''
           \<and> printed = [ustr ''Detected normal image: https://wiki.example.org/download/pic.png'',
                ustr ''Error downloading image https://wiki.example.org/download/pic.png: Connection refused''])"
proof -
  let ?el = "[ustr ''src'' \<mapsto> ustr ''/download/pic.png'']"
  let ?src = "ustr ''https://wiki.example.org/download/pic.png''"
  let ?p = "\<lparr>scheme = ustr ''https'', netloc = ustr ''wiki.example.org'',
               path = ustr ''/download/pic.png'', query = []\<rparr>"
  have 1: "image_src (ustr ''https://wiki.example.org'') ?el = Some ?src"
    by code_simp
  have 2: "\<not> contains (ustr ''status-macro/placeholder'') ?src"
    by code_simp
  have 3: "urlparse plain_library ?src = Inr ?p"
    by code_simp
  have 4: "images_join (unquote plain_library (basename (path ?p))) = ustr ''images/pic.png''"
    by code_simp
  have 5: "download_image offline ?src (ustr ''images/pic.png'') = Inl (RequestError (ustr ''Connection refused''))"
    by (simp add: download_image_def offline_def)
  have 6: "download_image offline ?src (images_join (unquote plain_library (basename (path ?p))))
      = Inl (RequestError (ustr ''Connection refused''))"
    unfolding 4 by (rule 5)
  have 7: "super_convert_img plain_library (?el(ustr ''src'' \<mapsto> ?src)) [] @ ustr ''\<newline>\<newline>''
      = ustr ''![](https://wiki.example.org/download/pic.png)\<newline>\<newline>''"
    by (simp add: plain_library_def ustr_def)
  have 8: "[ustr ''Detected normal image: '' @ ?src,
            ustr ''Error downloading image '' @ ?src @ ustr '': ''
              @ str_of_error (RequestError (ustr ''Connection refused''))]
      = [ustr ''Detected normal image: https://wiki.example.org/download/pic.png'',
         ustr ''Error downloading image https://wiki.example.org/download/pic.png: Connection refused'']"
    by (simp add: ustr_def)
  note r = image_download_failure_is_not_fatal [OF 1 2 3 6, of new_converter "[]"]
  show ?thesis
    unfolding r using 1 5 7 8 by simp
qed

section \<open>The table of contents: the second pass\<close>



































end
